theory Spec2Isabelle
  imports Main
begin

section \<open>Python values, errors and tensors\<close>

text \<open>
  The exceptions that the modelled code can raise.  A computation that may raise returns
  \<open>error + 'a\<close> (\<open>Inl\<close> the exception); a method that also mutates its object
  returns the object next to it, since Python keeps every mutation made before the raise.
\<close>

datatype error =
    RuntimeError
  | AssertionError
  | ZeroDivisionError
  | StopIteration
  | ValueError
  | KeyError

text \<open>
  The value of an attribute of a layer object: \<open>None\<close>, a boolean (the
  \<open>use_cache\<close> flag) or an opaque object (a cache entry, a hidden-state tensor).
\<close>

datatype 't pyval = PyNone | PyBool bool | PyObj 't

text \<open>
  A layer is seen through its attribute dictionary only: \<open>hasattr(layer, a)\<close> is
  \<open>l a \<noteq> None\<close> and \<open>getattr(layer, a)\<close> is the value stored there.
\<close>

type_synonym 't layer = "string \<rightharpoonup> 't pyval"

text \<open>
  A two-dimensional tensor of token ids: the number of columns is kept next to the rows,
  so that the shape of a batch with no row still has its second component.
\<close>

datatype tensor = Tensor (n_cols: nat) (t_rows: "int list list")

type_synonym shape = "nat \<times> nat"

fun shape_of :: "tensor \<Rightarrow> shape" where
  "shape_of (Tensor n rs) = (length rs, n)"

text \<open>\<open>input_ids[:, -1:]\<close>: every row keeps its last entry (none when it is empty).\<close>

fun last_column :: "tensor \<Rightarrow> tensor" where
  "last_column (Tensor n rs) = Tensor (min n 1) (map (\<lambda>r. drop (length r - 1) r) rs)"

section \<open>PipelineGenerationMixin\<close>

subsection \<open>Gathering, cleaning and setting the per-layer slots\<close>

text \<open>
  The loop of \<open>_get_past_key_values\<close> and \<open>_get_hidden_states\<close>: a layer's value
  is appended when the layer has the attribute and the attribute is not \<open>None\<close>.
\<close>

fun gather_loop :: "string \<Rightarrow> 't layer list \<Rightarrow> 't pyval list \<Rightarrow> 't pyval list" where
  "gather_loop a [] acc = acc"
| "gather_loop a (l # ls) acc =
     (case l a of
        None \<Rightarrow> gather_loop a ls acc
      | Some PyNone \<Rightarrow> gather_loop a ls acc
      | Some v \<Rightarrow> gather_loop a ls (acc @ [v]))"

definition gather_attr :: "string \<Rightarrow> 't layer list \<Rightarrow> 't pyval list option" where
  "gather_attr a ls =
     (let past_key_values = gather_loop a ls []
      in if length past_key_values > 1 then Some past_key_values else None)"

definition get_past_key_values :: "'t layer list \<Rightarrow> 't pyval list option" where
  "get_past_key_values ls = gather_attr ''past_key_values'' ls"

definition get_hidden_states :: "'t layer list \<Rightarrow> 't pyval list option" where
  "get_hidden_states ls = gather_attr ''hidden_states'' ls"

text \<open>
  \<open>_clean_past_key_values\<close>, \<open>_clean_hidden_states\<close>: every layer that has the
  attribute gets \<open>None\<close> stored in it; a layer without it is left alone.
\<close>

fun clean_attr :: "string \<Rightarrow> 't layer list \<Rightarrow> 't layer list" where
  "clean_attr a [] = []"
| "clean_attr a (l # ls) =
     (case l a of
        None \<Rightarrow> l # clean_attr a ls
      | Some _ \<Rightarrow> l(a \<mapsto> PyNone) # clean_attr a ls)"

definition clean_past_key_values :: "'t layer list \<Rightarrow> 't layer list" where
  "clean_past_key_values ls = clean_attr ''past_key_values'' ls"

definition clean_hidden_states :: "'t layer list \<Rightarrow> 't layer list" where
  "clean_hidden_states ls = clean_attr ''hidden_states'' ls"

text \<open>
  \<open>_set_past_key_values\<close>, \<open>_set_hidden_states\<close>: the caller's list is turned into
  an iterator, and every layer that has the attribute takes \<open>next\<close> of it.  On an
  exhausted iterator \<open>next\<close> raises \<open>StopIteration\<close>; the layers assigned before
  keep their new values.  Nothing looks at what is left of the iterator after the loop.
\<close>

fun set_attr :: "string \<Rightarrow> 't pyval list \<Rightarrow> 't layer list \<Rightarrow> (error + unit) \<times> 't layer list" where
  "set_attr a it [] = (Inr (), [])"
| "set_attr a it (l # ls) =
     (case l a of
        None \<Rightarrow> (case set_attr a it ls of (r, ls') \<Rightarrow> (r, l # ls'))
      | Some _ \<Rightarrow>
          (case it of
             [] \<Rightarrow> (Inl StopIteration, l # ls)
           | v # it' \<Rightarrow> (case set_attr a it' ls of (r, ls') \<Rightarrow> (r, l(a \<mapsto> v) # ls'))))"

definition set_past_key_values :: "'t pyval list \<Rightarrow> 't layer list \<Rightarrow> (error + unit) \<times> 't layer list" where
  "set_past_key_values past_key_values ls = set_attr ''past_key_values'' past_key_values ls"

definition set_hidden_states :: "'t pyval list \<Rightarrow> 't layer list \<Rightarrow> (error + unit) \<times> 't layer list" where
  "set_hidden_states hidden_states ls = set_attr ''hidden_states'' hidden_states ls"

text \<open>\<open>_set_use_cache\<close>: every layer that has the attribute takes the flag.\<close>

fun set_use_cache :: "bool \<Rightarrow> 't layer list \<Rightarrow> 't layer list" where
  "set_use_cache use_cache [] = []"
| "set_use_cache use_cache (l # ls) =
     (case l ''use_cache'' of
        None \<Rightarrow> l # set_use_cache use_cache ls
      | Some _ \<Rightarrow> l(''use_cache'' \<mapsto> PyBool use_cache) # set_use_cache use_cache ls)"

text \<open>
  The non-empty slots of the layers, in the order of the layers: the entries of the
  cache-bearing layers.
\<close>

definition filled :: "string \<Rightarrow> 't layer \<Rightarrow> 't pyval option" where
  "filled a l = (case l a of None \<Rightarrow> None | Some PyNone \<Rightarrow> None | Some v \<Rightarrow> Some v)"

definition filled_slots :: "string \<Rightarrow> 't layer list \<Rightarrow> 't pyval list" where
  "filled_slots a ls = List.map_filter (filled a) ls"

subsection \<open>The coordinator object, forward and generate\<close>

text \<open>
  The engine is an external collaborator.  The model records every call the mixin makes on
  it, in order: \<open>engine.reset_activation_shape()\<close>, the assignment
  \<open>engine.total_loss = None\<close>, and \<open>engine.eval_batch(cycle([batch]))\<close> with the
  two components of the batch.
\<close>

datatype engine_call =
    ResetActivationShape
  | SetTotalLossNone
  | EvalBatch tensor tensor

record 't mixin =
  layers :: "'t layer list"
  communicate_buffer_shape :: "shape option"
  engine_calls :: "engine_call list"

text \<open>What \<open>forward\<close> returns: \<open>CausalLMOutputWithPast\<close> (loss and attentions are \<open>None\<close>).\<close>

record ('t, 'lg) causal_lm_output =
  logits :: 'lg
  past_key_values :: "'t pyval list option"
  hidden_states :: "'t pyval list option"

text \<open>
  What the engine does on \<open>eval_batch\<close> is a parameter: from the calls made on the
  engine so far (the present one included) and the layers it runs, it gives the logits or
  an exception, and the layers with the slots the run has written.
\<close>

type_synonym ('t, 'lg) eval_batch =
  "engine_call list \<Rightarrow> 't layer list \<Rightarrow> (error + 'lg) \<times> 't layer list"

text \<open>The batch \<open>forward\<close> hands to the engine: \<open>input_ids\<close>, cut to its last column when
  the gathered cache is not \<open>None\<close>.\<close>

definition forward_input :: "'t mixin \<Rightarrow> tensor \<Rightarrow> tensor" where
  "forward_input self input_ids =
     (if get_past_key_values (layers self) \<noteq> None then last_column input_ids else input_ids)"

text \<open>Lines 221 to 227 of \<open>forward\<close>: the stored shape against the shape of the batch.\<close>

definition sync_buffer_shape :: "tensor \<Rightarrow> 't mixin \<Rightarrow> 't mixin" where
  "sync_buffer_shape batch0 self =
     (case communicate_buffer_shape self of
        None \<Rightarrow> self\<lparr>communicate_buffer_shape := Some (shape_of batch0)\<rparr>
      | Some s \<Rightarrow>
          if s \<noteq> shape_of batch0
          then self\<lparr>engine_calls := engine_calls self @ [ResetActivationShape, SetTotalLossNone],
                    communicate_buffer_shape := Some (shape_of batch0)\<rparr>
          else self)"

definition forward ::
  "('t, 'lg) eval_batch \<Rightarrow> 't mixin \<Rightarrow> tensor \<Rightarrow> (error + ('t, 'lg) causal_lm_output) \<times> 't mixin" where
  "forward ev self input_ids =
     (let input_ids' = forward_input self input_ids;
          batch = (input_ids', input_ids');
          self1 = sync_buffer_shape (fst batch) self;
          self2 = self1\<lparr>engine_calls := engine_calls self1 @ [EvalBatch (fst batch) (snd batch)]\<rparr>
      in case ev (engine_calls self2) (layers self2) of
           (Inl e, ls) \<Rightarrow> (Inl e, self2\<lparr>layers := ls\<rparr>)
         | (Inr lg, ls) \<Rightarrow>
             (Inr \<lparr>logits = lg,
                   past_key_values = get_past_key_values ls,
                   hidden_states = get_hidden_states ls\<rparr>,
              self2\<lparr>layers := ls\<rparr>))"

text \<open>
  \<open>prepare_inputs_for_generation\<close>: the flag is set, then the cache is cleaned or set
  from the caller's list.
\<close>

definition prepare_inputs_for_generation ::
  "bool \<Rightarrow> 't mixin \<Rightarrow> tensor \<Rightarrow> 't pyval list option \<Rightarrow> (error + tensor) \<times> 't mixin" where
  "prepare_inputs_for_generation use_cache self input_ids pkv =
     (let self1 = self\<lparr>layers := set_use_cache use_cache (layers self)\<rparr>
      in case pkv of
           None \<Rightarrow> (Inr input_ids, self1\<lparr>layers := clean_past_key_values (layers self1)\<rparr>)
         | Some kvs \<Rightarrow>
             (case set_past_key_values kvs (layers self1) of
                (Inl e, ls) \<Rightarrow> (Inl e, self1\<lparr>layers := ls\<rparr>)
              | (Inr u, ls) \<Rightarrow> (Inr input_ids, self1\<lparr>layers := ls\<rparr>)))"

text \<open>
  \<open>generate\<close>: \<open>super().generate\<close> is the generation loop of the transformers
  library, a parameter here: it gives a result or an exception and the coordinator as the
  loop has left it.  The two cleaning calls stand after it, outside any \<open>try\<close>: an
  exception leaves \<open>generate\<close> before they run.
\<close>

definition generate ::
  "('t mixin \<Rightarrow> (error + 'r) \<times> 't mixin) \<Rightarrow> 't mixin \<Rightarrow> (error + 'r) \<times> 't mixin" where
  "generate super_generate self =
     (case super_generate self of
        (Inl e, self1) \<Rightarrow> (Inl e, self1)
      | (Inr res, self1) \<Rightarrow>
          (let self2 = self1\<lparr>layers := clean_past_key_values (layers self1)\<rparr>;
               self3 = self2\<lparr>layers := clean_hidden_states (layers self2)\<rparr>
           in (Inr res, self3)))"

text \<open>The two states of the coordinator, read off the test \<open>forward\<close> makes (line 218).\<close>

datatype cache_state = NoCache | CachePopulated

definition cache_state_of :: "'t mixin \<Rightarrow> cache_state" where
  "cache_state_of self =
     (if get_past_key_values (layers self) \<noteq> None then CachePopulated else NoCache)"

text \<open>
  Reading the record of engine calls: the first components of the batches evaluated, the
  batches evaluated with both components, the number of resets.
\<close>

fun forwarded :: "engine_call list \<Rightarrow> tensor list" where
  "forwarded [] = []"
| "forwarded (EvalBatch x y # cs) = x # forwarded cs"
| "forwarded (c # cs) = forwarded cs"

fun evaluated :: "engine_call list \<Rightarrow> (tensor \<times> tensor) list" where
  "evaluated [] = []"
| "evaluated (EvalBatch x y # cs) = (x, y) # evaluated cs"
| "evaluated (c # cs) = evaluated cs"

fun resets :: "engine_call list \<Rightarrow> nat" where
  "resets [] = 0"
| "resets (ResetActivationShape # cs) = Suc (resets cs)"
| "resets (c # cs) = resets cs"

text \<open>
  A run of \<open>forward\<close> calls, one per input; an exception of the engine ends its call and
  leaves the coordinator as it is then, for the next call.
\<close>

fun forward_all :: "('t, 'lg) eval_batch \<Rightarrow> 't mixin \<Rightarrow> tensor list \<Rightarrow> 't mixin" where
  "forward_all ev self [] = self"
| "forward_all ev self (x # xs) = forward_all ev (snd (forward ev self x)) xs"

text \<open>The number of places in a run of shapes where a shape differs from the one stored before it.\<close>

fun shape_changes :: "shape option \<Rightarrow> shape list \<Rightarrow> nat" where
  "shape_changes prev [] = 0"
| "shape_changes prev (s # ss) =
     (case prev of
        None \<Rightarrow> shape_changes (Some s) ss
      | Some p \<Rightarrow> (if p \<noteq> s then Suc (shape_changes (Some s) ss) else shape_changes (Some s) ss))"

text \<open>
  Words for the theorems: the values of an attribute over the layers that have it, in layer
  order; a layer whose slot is absent or \<open>None\<close>; two layers that differ at most in the value of one attribute they both have or
  both lack; the batches evaluated between two states of the coordinator.
\<close>

definition attr_values :: "string \<Rightarrow> 't layer list \<Rightarrow> 't pyval list" where
  "attr_values a ls = List.map_filter (\<lambda>l. l a) ls"

definition same_but :: "string \<Rightarrow> 't layer \<Rightarrow> 't layer \<Rightarrow> bool" where
  "same_but a l l' = ((\<forall>b. b \<noteq> a \<longrightarrow> l' b = l b) \<and> (l a = None \<longleftrightarrow> l' a = None))"

definition slot_empty :: "string \<Rightarrow> 't layer \<Rightarrow> bool" where
  "slot_empty a l = (l a = None \<or> l a = Some PyNone)"

definition new_batches :: "'t mixin \<Rightarrow> 't mixin \<Rightarrow> tensor list" where
  "new_batches self self' =
     drop (length (forwarded (engine_calls self))) (forwarded (engine_calls self'))"

subsection \<open>A stage of four layers and an engine that fills the cache\<close>

text \<open>
  Two attention layers with a cache slot, a function without attributes between them, and
  a head with a hidden-state slot.  The engine writes a cache entry into every layer that
  has the slot.  One generation makes a forward pass and returns; another makes a forward
  pass and raises.
\<close>

definition example_layers :: "nat layer list" where
  "example_layers =
     [[''past_key_values'' \<mapsto> PyNone, ''use_cache'' \<mapsto> PyBool True],
      Map.empty,
      [''past_key_values'' \<mapsto> PyNone, ''use_cache'' \<mapsto> PyBool True],
      [''hidden_states'' \<mapsto> PyNone]]"

definition example_mixin :: "nat mixin" where
  "example_mixin = \<lparr>layers = example_layers, communicate_buffer_shape = None, engine_calls = []\<rparr>"

definition example_engine :: "(nat, int) eval_batch" where
  "example_engine calls ls =
     (Inr 0,
      map (\<lambda>l. if l ''past_key_values'' = None then l
               else l(''past_key_values'' \<mapsto> PyObj (length calls))) ls)"

definition one_step_generation ::
  "('t, 'lg) eval_batch \<Rightarrow> tensor \<Rightarrow> 't mixin \<Rightarrow> (error + tensor) \<times> 't mixin" where
  "one_step_generation ev ids self =
     (case forward ev self ids of
        (Inl e, self1) \<Rightarrow> (Inl e, self1)
      | (Inr out, self1) \<Rightarrow> (Inr ids, self1))"

definition raising_generation ::
  "('t, 'lg) eval_batch \<Rightarrow> tensor \<Rightarrow> 't mixin \<Rightarrow> (error + tensor) \<times> 't mixin" where
  "raising_generation ev ids self =
     (case forward ev self ids of (r, self1) \<Rightarrow> (Inl ValueError, self1))"

section \<open>PipelineModel: the mesh and the published state\<close>

subsection \<open>Formatting\<close>

text \<open>\<open>str\<close> of an integer, and \<open>json.dumps\<close> of a list of integers.\<close>

definition digit_char :: "nat \<Rightarrow> char" where
  "digit_char d = ''0123456789'' ! d"

fun str_nat :: "nat \<Rightarrow> string" where
  "str_nat n = (if n < 10 then [digit_char n] else str_nat (n div 10) @ [digit_char (n mod 10)])"

declare str_nat.simps [simp del]

definition str_int :: "int \<Rightarrow> string" where
  "str_int i = (if i < 0 then CHR ''-'' # str_nat (nat (- i)) else str_nat (nat i))"

fun join_comma :: "string list \<Rightarrow> string" where
  "join_comma [] = []"
| "join_comma [x] = x"
| "join_comma (x # y # ys) = x @ '', '' @ join_comma (y # ys)"

definition json_dumps :: "int list \<Rightarrow> string" where
  "json_dumps xs = ''['' @ join_comma (map str_int xs) @ '']''"

subsection \<open>Resolving the mesh\<close>

text \<open>
  Lines 152 to 157 of \<open>PipelineModel.__init__\<close>.  \<open>world_size\<close> is
  \<open>int(os.environ.get('WORLD_SIZE'))\<close>; the dims are \<open>(pp_size, dp_size, tp_size)\<close>.
  The second component is the list of messages given to \<open>logger.rank_zero_warning\<close>.
  The first message is an f-string; the second is written without the \<open>f\<close>, so its text
  is the literal one.  Python's \<open>//\<close> raises on a zero divisor and floors, as \<open>div\<close>
  on \<open>int\<close> does.
\<close>

type_synonym dims = "int \<times> int \<times> int"

definition resolve_dims :: "int \<Rightarrow> dims \<Rightarrow> (error + dims) \<times> string list" where
  "resolve_dims world_size topology_dims =
     (case topology_dims of (pp_size, dp_size, tp_size) \<Rightarrow>
        if world_size \<noteq> pp_size * dp_size * tp_size
        then
          (let w1 = ''The world size is not equal to the product of the parallel sizes set.''
                    @ str_int world_size @ '' != '' @ str_int pp_size @ '' * ''
                    @ str_int dp_size @ '' * '' @ str_int tp_size @ ''.''
           in if tp_size * pp_size = 0 then (Inl ZeroDivisionError, [w1])
              else (Inr (pp_size, world_size div (tp_size * pp_size), tp_size),
                    [w1, ''Set dp_size to {dp_size}.'']))
        else (Inr (pp_size, dp_size, tp_size), []))"

subsection \<open>The grid\<close>

record grid =
  data_parallel_size :: int
  pipe_parallel_size :: int
  model_parallel_size :: int
  slice_parallel_size :: int

text \<open>
  Modelled from the spec: \<open>_is_grid_valid\<close> is a method that \<open>MultiParallelGrid\<close>
  inherits from \<open>PipelineParallelGrid\<close> of the deepspeed library, whose text is not
  among the sources.  The spec has the mesh validated as non-degenerate: all dims at least
  one, and the division exact, that is the product of the dims is the world size.
\<close>

definition is_grid_valid :: "dims \<Rightarrow> int \<Rightarrow> bool" where
  "is_grid_valid topo world_size =
     (case topo of (pp, dp, tp) \<Rightarrow> 1 \<le> pp \<and> 1 \<le> dp \<and> 1 \<le> tp \<and> pp * dp * tp = world_size)"

text \<open>
  \<open>MultiParallelGrid.__init__\<close>, lines 301 to 310: the sizes, then the assertion.
  The world size of the grid is \<open>dist.get_world_size()\<close>, the number of processes
  that \<open>WORLD_SIZE\<close> names too; the model has one value for both.
\<close>

definition MultiParallelGrid_init :: "dims \<Rightarrow> int \<Rightarrow> error + grid" where
  "MultiParallelGrid_init topo world_size =
     (case topo of (pp, dp, tp) \<Rightarrow>
        (let g = \<lparr>data_parallel_size = max dp 1,
                  pipe_parallel_size = max pp 1,
                  model_parallel_size = max tp 1,
                  slice_parallel_size = max tp 1\<rparr>
         in if is_grid_valid topo world_size then Inr g else Inl AssertionError))"

subsection \<open>Construction\<close>

text \<open>
  What the inherited deepspeed code computes for the resolved topology on this rank: the
  stage index \<open>topo.get_coord(global_rank).pipe\<close>, the grid's \<open>data_parallel_id\<close>
  and the partition bounds \<open>self.parts\<close>; or the exception that partitioning, building
  or tying raises.  It is a parameter of the construction.
\<close>

record deepspeed_view =
  ds_stage_id :: int
  ds_data_parallel_id :: int
  ds_parts :: "int list"

record pipeline_model =
  topo :: dims
  num_stages :: int
  grid_sizes :: grid
  stage_id :: int
  data_parallel_id :: int
  parts :: "int list"

type_synonym environ = "string \<rightharpoonup> string"

text \<open>
  \<open>PipelineModel.__init__\<close> from the topology check on: the mesh is resolved, the grid
  built and asserted valid, the layers partitioned and built, and last the three
  environment variables are written (lines 192 to 194).  An exception leaves the
  environment as it was.  The result carries the environment and the warnings logged.
\<close>

definition PipelineModel_init ::
  "(dims \<Rightarrow> error + deepspeed_view) \<Rightarrow> environ \<Rightarrow> dims option \<Rightarrow> int
     \<Rightarrow> (error + pipeline_model) \<times> environ \<times> string list" where
  "PipelineModel_init ds env topology world_size =
     (case topology of
        None \<Rightarrow> (Inl RuntimeError, env, [])
      | Some topology_dims \<Rightarrow>
          (case resolve_dims world_size topology_dims of
             (Inl e, warnings) \<Rightarrow> (Inl e, env, warnings)
           | (Inr t, warnings) \<Rightarrow>
               (case MultiParallelGrid_init t world_size of
                  Inl e \<Rightarrow> (Inl e, env, warnings)
                | Inr g \<Rightarrow>
                    (case ds t of
                       Inl e \<Rightarrow> (Inl e, env, warnings)
                     | Inr v \<Rightarrow>
                         (Inr \<lparr>topo = t, num_stages = fst t, grid_sizes = g,
                               stage_id = ds_stage_id v,
                               data_parallel_id = ds_data_parallel_id v,
                               parts = ds_parts v\<rparr>,
                          env(''COLLIE_PP_PARTS'' \<mapsto> json_dumps (ds_parts v),
                              ''COLLIE_PP_RANK'' \<mapsto> str_int (ds_stage_id v),
                              ''COLLIE_DP_RANK'' \<mapsto> str_int (ds_data_parallel_id v)),
                          warnings)))))"

section \<open>Tokenizing a conversation\<close>

text \<open>
  A message is a dictionary from field names to strings, a conversation a dictionary from
  field names to lists of messages; a missing key raises \<open>KeyError\<close>.  A prepared
  message is the dictionary with the two fields \<open>content\<close> and \<open>require_loss\<close>.
  The tokenizer is an external collaborator: its class name, its special tokens, and what
  calling it on a string gives, the pair of \<open>input_ids\<close> and \<open>attention_mask\<close>.
\<close>

type_synonym message = "string \<rightharpoonup> string"

type_synonym conversation = "string \<rightharpoonup> message list"

record prepared_message =
  content :: string
  require_loss :: bool

record tokenizer =
  type_name :: string
  special_tokens_map :: "string \<rightharpoonup> string"
  encode :: "string \<Rightarrow> int list \<times> int list"

type_synonym template_fn =
  "conversation \<Rightarrow> (string \<rightharpoonup> string) \<Rightarrow> string \<Rightarrow> bool \<Rightarrow> error + prepared_message list"

definition newline :: string where
  "newline = [CHR 0x0A]"

text \<open>The loop of \<open>prepare_chatml_messages\<close> over the messages of the text field.\<close>

fun chatml_loop :: "message list \<Rightarrow> prepared_message list \<Rightarrow> error + prepared_message list" where
  "chatml_loop [] prepared_messages = Inr prepared_messages"
| "chatml_loop (m # ms) prepared_messages =
     (case m ''role'' of
        None \<Rightarrow> Inl KeyError
      | Some role \<Rightarrow>
          if role = ''assistant''
          then
            (case m ''content'' of
               None \<Rightarrow> Inl KeyError
             | Some c \<Rightarrow>
                 chatml_loop ms
                   (prepared_messages @
                     [\<lparr>content = ''<|im_start|>assistant'' @ newline, require_loss = False\<rparr>,
                      \<lparr>content = c @ ''<|im_end|>'', require_loss = True\<rparr>,
                      \<lparr>content = newline, require_loss = False\<rparr>]))
          else
            (case m ''content'' of
               None \<Rightarrow> Inl KeyError
             | Some c \<Rightarrow>
                 chatml_loop ms
                   (prepared_messages @
                     [\<lparr>content = ''<|im_start|>'' @ role @ newline @ c @ ''<|im_end|>'' @ newline,
                       require_loss = False\<rparr>])))"

definition prepare_chatml_messages :: template_fn where
  "prepare_chatml_messages messages special_tokens text_field add_generation_prompt =
     (case special_tokens ''bos_token'' of
        None \<Rightarrow> Inl KeyError
      | Some bos \<Rightarrow>
          (case messages text_field of
             None \<Rightarrow> Inl KeyError
           | Some ms \<Rightarrow>
               (case chatml_loop ms [\<lparr>content = bos, require_loss = False\<rparr>] of
                  Inl e \<Rightarrow> Inl e
                | Inr prepared_messages \<Rightarrow>
                    Inr (if add_generation_prompt
                         then prepared_messages @
                                [\<lparr>content = ''<|im_start|>assistant'' @ newline, require_loss = False\<rparr>]
                         else prepared_messages))))"

definition TOKENIZER_PREPARE_TEMPLATE_FN_MAPPING :: "string \<rightharpoonup> template_fn" where
  "TOKENIZER_PREPARE_TEMPLATE_FN_MAPPING =
     [''Qwen2Tokenizer'' \<mapsto> prepare_chatml_messages,
      ''Qwen2TokenizerFast'' \<mapsto> prepare_chatml_messages]"

text \<open>The loop of \<open>tokenize_conversation\<close>, lines 129 to 140.\<close>

fun tokenize_loop ::
  "(string \<Rightarrow> int list \<times> int list) \<Rightarrow> prepared_message list
     \<Rightarrow> int list \<times> int list \<times> int list \<Rightarrow> int list \<times> int list \<times> int list" where
  "tokenize_loop tok [] acc = acc"
| "tokenize_loop tok (m # ms) (input_ids, labels, attention_mask) =
     (let output = tok (content m);
          label = (if require_loss m then fst output
                   else replicate (length (fst output)) (- 100))
      in tokenize_loop tok ms (input_ids @ fst output, labels @ label, attention_mask @ snd output))"

text \<open>Lines 117 to 121: the template given, or the preset one of the tokenizer's class.\<close>

definition select_template :: "tokenizer \<Rightarrow> template_fn option \<Rightarrow> error + template_fn" where
  "select_template tokenizer prepare_template_fn =
     (case prepare_template_fn of
        None \<Rightarrow>
          (case TOKENIZER_PREPARE_TEMPLATE_FN_MAPPING (type_name tokenizer) of
             None \<Rightarrow> Inl ValueError
           | Some f \<Rightarrow> Inr f)
      | Some f \<Rightarrow> Inr f)"

definition tokenize_conversation ::
  "conversation \<Rightarrow> tokenizer \<Rightarrow> string \<Rightarrow> template_fn option \<Rightarrow> bool
     \<Rightarrow> error + (int list \<times> int list \<times> int list)" where
  "tokenize_conversation conv tokenizer text_field prepare_template_fn add_generation_prompt =
     (case select_template tokenizer prepare_template_fn of
        Inl e \<Rightarrow> Inl e
      | Inr f \<Rightarrow>
          (case f conv (special_tokens_map tokenizer) text_field add_generation_prompt of
             Inl e \<Rightarrow> Inl e
           | Inr prepared_messages \<Rightarrow>
               Inr (tokenize_loop (encode tokenizer) prepared_messages ([], [], []))))"

text \<open>
  Words for the theorem: the label a prepared message gives its tokens, and a tokenizer
  with a small vocabulary for the example.
\<close>

definition segment_labels :: "(string \<Rightarrow> int list \<times> int list) \<Rightarrow> prepared_message \<Rightarrow> int list" where
  "segment_labels tok m =
     (if require_loss m then fst (tok (content m))
      else replicate (length (fst (tok (content m)))) (- 100))"

definition example_tokenizer :: tokenizer where
  "example_tokenizer =
     \<lparr>type_name = ''Qwen2Tokenizer'',
      special_tokens_map = [''bos_token'' \<mapsto> ''<s>''],
      encode = (\<lambda>s. ([int (length s)], [1]))\<rparr>"

text \<open>A tokenizer whose mask is shorter than its ids: two ids and one mask entry per string.\<close>

definition short_mask_tokenizer :: tokenizer where
  "short_mask_tokenizer =
     \<lparr>type_name = ''Qwen2Tokenizer'',
      special_tokens_map = [''bos_token'' \<mapsto> ''<s>''],
      encode = (\<lambda>s. ([int (length s), 0], [1]))\<rparr>"

definition example_conversation :: conversation where
  "example_conversation =
     [''history'' \<mapsto>
        [[''role'' \<mapsto> ''user'', ''content'' \<mapsto> ''hi''],
         [''role'' \<mapsto> ''assistant'', ''content'' \<mapsto> ''hello'']]]"

section \<open>Lemmas on the loops\<close>

subsection \<open>Gathering, cleaning, setting\<close>

lemma gather_loop_filled: "gather_loop a ls acc = acc @ filled_slots a ls"
proof (induction ls arbitrary: acc)
  case Nil
  show ?case by (simp add: filled_slots_def List.map_filter_simps)
next
  case (Cons l ls)
  show ?case
  proof (cases "l a")
    case None
    then show ?thesis
      using Cons.IH [of acc] by (simp add: filled_slots_def filled_def List.map_filter_simps)
  next
    case (Some v)
    then show ?thesis
      using Cons.IH [of acc] Cons.IH [of "acc @ [v]"]
      by (cases v) (simp_all add: filled_slots_def filled_def List.map_filter_simps)
  qed
qed

lemma gather_attr_filled:
  "gather_attr a ls = (if 2 \<le> length (filled_slots a ls) then Some (filled_slots a ls) else None)"
  using gather_loop_filled [of a ls "[]"] by (auto simp: gather_attr_def Let_def)

lemma clean_attr_map: "clean_attr a ls = map (\<lambda>l. if l a = None then l else l(a \<mapsto> PyNone)) ls"
  by (induction ls) (auto split: option.splits)

lemma filled_slots_clean: "filled_slots a (clean_attr a ls) = []"
  by (induction ls) (auto simp: filled_slots_def filled_def List.map_filter_simps split: option.splits)

lemma filled_slots_clean_other:
  "a \<noteq> b \<Longrightarrow> filled_slots a (clean_attr b ls) = filled_slots a ls"
  by (induction ls) (auto simp: filled_slots_def filled_def List.map_filter_simps split: option.splits)

lemma clean_attr_empty: "list_all (slot_empty a) (clean_attr a ls)"
  by (induction ls) (auto simp: slot_empty_def split: option.splits)

lemma clean_attr_empty_other:
  "a \<noteq> b \<Longrightarrow> list_all (slot_empty a) ls \<Longrightarrow> list_all (slot_empty a) (clean_attr b ls)"
  by (induction ls) (auto simp: slot_empty_def split: option.splits)

lemma set_attr_fst:
  "fst (set_attr a it ls) = (if length it < length (attr_values a ls) then Inl StopIteration else Inr ())"
proof (induction ls arbitrary: it)
  case Nil
  show ?case by (simp add: attr_values_def List.map_filter_simps)
next
  case (Cons l ls)
  show ?case
  proof (cases "l a")
    case None
    then show ?thesis using Cons.IH [of it]
      by (simp add: attr_values_def List.map_filter_simps case_prod_beta)
  next
    case (Some v)
    show ?thesis
    proof (cases it)
      case Nil
      then show ?thesis using Some by (simp add: attr_values_def List.map_filter_simps)
    next
      case (Cons x it')
      then show ?thesis using Some Cons.IH [of it']
        by (simp add: attr_values_def List.map_filter_simps case_prod_beta)
    qed
  qed
qed

lemma set_attr_values:
  "attr_values a (snd (set_attr a it ls)) =
     take (length (attr_values a ls)) it @ drop (length it) (attr_values a ls)"
proof (induction ls arbitrary: it)
  case Nil
  show ?case by (simp add: attr_values_def List.map_filter_simps)
next
  case (Cons l ls)
  show ?case
  proof (cases "l a")
    case None
    then show ?thesis using Cons.IH [of it]
      by (simp add: attr_values_def List.map_filter_simps case_prod_beta)
  next
    case (Some v)
    show ?thesis
    proof (cases it)
      case Nil
      then show ?thesis using Some by (simp add: attr_values_def List.map_filter_simps)
    next
      case (Cons x it')
      then show ?thesis using Some Cons.IH [of it']
        by (simp add: attr_values_def List.map_filter_simps case_prod_beta)
    qed
  qed
qed

lemma same_but_refl: "same_but a l l"
  by (simp add: same_but_def)

lemma same_but_upd: "l a = Some v \<Longrightarrow> same_but a l (l(a \<mapsto> w))"
  by (simp add: same_but_def)

lemma set_attr_frame: "list_all2 (same_but a) ls (snd (set_attr a it ls))"
proof (induction ls arbitrary: it)
  case Nil
  show ?case by simp
next
  case (Cons l ls)
  show ?case
  proof (cases "l a")
    case None
    then show ?thesis using Cons.IH [of it]
      by (simp add: same_but_refl case_prod_beta)
  next
    case (Some v)
    show ?thesis
    proof (cases it)
      case Nil
      then show ?thesis using Some by (simp add: same_but_refl list_all2_refl)
    next
      case (Cons x it')
      then show ?thesis using Some Cons.IH [of it']
        by (simp add: same_but_upd case_prod_beta)
    qed
  qed
qed

subsection \<open>The calls forward makes on the engine\<close>

lemma forwarded_append: "forwarded (xs @ ys) = forwarded xs @ forwarded ys"
  by (induction xs rule: forwarded.induct) simp_all

lemma resets_append: "resets (xs @ ys) = resets xs + resets ys"
  by (induction xs rule: resets.induct) simp_all

lemma sync_layers: "layers (sync_buffer_shape b self) = layers self"
  by (simp add: sync_buffer_shape_def split: option.splits)

lemma sync_forwarded: "forwarded (engine_calls (sync_buffer_shape b self)) = forwarded (engine_calls self)"
  by (simp add: sync_buffer_shape_def forwarded_append split: option.splits)

lemma sync_resets:
  "resets (engine_calls (sync_buffer_shape b self)) =
     resets (engine_calls self) +
       (case communicate_buffer_shape self of None \<Rightarrow> 0
        | Some s \<Rightarrow> if s \<noteq> shape_of b then 1 else 0)"
  by (simp add: sync_buffer_shape_def resets_append split: option.splits)

lemma sync_shape: "communicate_buffer_shape (sync_buffer_shape b self) = Some (shape_of b)"
  by (simp add: sync_buffer_shape_def split: option.splits)

lemma evaluated_append: "evaluated (xs @ ys) = evaluated xs @ evaluated ys"
  by (induction xs rule: evaluated.induct) simp_all

lemma sync_calls:
  "engine_calls (sync_buffer_shape b self) =
     engine_calls self @
       (case communicate_buffer_shape self of
          None \<Rightarrow> []
        | Some s \<Rightarrow> if s \<noteq> shape_of b then [ResetActivationShape, SetTotalLossNone] else [])"
  by (simp add: sync_buffer_shape_def split: option.splits)

lemma sync_evaluated: "evaluated (engine_calls (sync_buffer_shape b self)) = evaluated (engine_calls self)"
  by (simp add: sync_buffer_shape_def evaluated_append split: option.splits)

lemma forward_calls:
  "engine_calls (snd (forward ev self ids)) =
     engine_calls (sync_buffer_shape (forward_input self ids) self)
       @ [EvalBatch (forward_input self ids) (forward_input self ids)]"
  by (simp add: forward_def Let_def split: prod.splits sum.splits)

lemma forward_shape:
  "communicate_buffer_shape (snd (forward ev self ids)) = Some (shape_of (forward_input self ids))"
  by (simp add: forward_def Let_def sync_shape split: prod.splits sum.splits)

lemma forward_layers:
  "layers (snd (forward ev self ids)) =
     snd (ev (engine_calls (snd (forward ev self ids))) (layers self))"
  by (simp add: forward_def Let_def sync_layers split: prod.splits sum.splits)

lemma forward_output:
  "fst (forward ev self ids) = Inr out \<Longrightarrow>
     past_key_values out = get_past_key_values (layers (snd (forward ev self ids)))"
  by (auto simp add: forward_def Let_def split: prod.splits sum.splits)

lemma forward_all_prefix:
  "\<exists>rest. forwarded (engine_calls (forward_all ev self xs)) = forwarded (engine_calls self) @ rest"
proof (induction xs arbitrary: self)
  case Nil
  show ?case by simp
next
  case (Cons x xs)
  from Cons.IH [of "snd (forward ev self x)"] show ?case
    by (auto simp: forward_calls forwarded_append sync_forwarded)
qed

lemma forward_all_resets:
  "resets (engine_calls (forward_all ev self xs)) =
     resets (engine_calls self) +
       shape_changes (communicate_buffer_shape self)
         (map shape_of (new_batches self (forward_all ev self xs)))"
proof (induction xs arbitrary: self)
  case Nil
  show ?case by (simp add: new_batches_def)
next
  case (Cons x xs)
  let ?s1 = "snd (forward ev self x)"
  let ?b = "forward_input self x"
  obtain rest where r: "forwarded (engine_calls (forward_all ev ?s1 xs)) = forwarded (engine_calls ?s1) @ rest"
    using forward_all_prefix by blast
  have f1: "forwarded (engine_calls ?s1) = forwarded (engine_calls self) @ [?b]"
    by (simp add: forward_calls forwarded_append sync_forwarded)
  have n1: "new_batches ?s1 (forward_all ev ?s1 xs) = rest"
    by (simp add: new_batches_def r)
  have n0: "new_batches self (forward_all ev ?s1 xs) = ?b # rest"
    by (simp add: new_batches_def r f1)
  have r1: "resets (engine_calls ?s1) = resets (engine_calls self) +
       (case communicate_buffer_shape self of None \<Rightarrow> 0
        | Some s \<Rightarrow> if s \<noteq> shape_of ?b then 1 else 0)"
    by (simp add: forward_calls resets_append sync_resets)
  have c1: "communicate_buffer_shape ?s1 = Some (shape_of ?b)"
    by (rule forward_shape)
  show ?case
    using Cons.IH [of ?s1] by (simp add: n0 n1 r1 c1 split: option.splits)
qed

subsection \<open>Unfolding the examples\<close>

lemmas ex_defs = example_layers_def example_mixin_def example_engine_def
  forward_def forward_input_def sync_buffer_shape_def
  get_past_key_values_def get_hidden_states_def gather_attr_def Let_def
  filled_slots_def filled_def List.map_filter_simps cache_state_of_def

subsection \<open>The recomputed data-parallel size\<close>

lemma dvd_recompute:
  fixes pp tp ws :: int
  assumes "tp * pp dvd ws"
  shows "pp * (ws div (tp * pp)) * tp = ws"
proof -
  have "(tp * pp) * (ws div (tp * pp)) = ws"
    using assms by (rule dvd_mult_div_cancel)
  then show ?thesis by (simp add: ac_simps)
qed

lemma not_dvd_recompute:
  fixes pp tp ws :: int
  assumes "\<not> tp * pp dvd ws"
  shows "pp * (ws div (tp * pp)) * tp \<noteq> ws"
proof
  assume "pp * (ws div (tp * pp)) * tp = ws"
  then have "ws = (tp * pp) * (ws div (tp * pp))" by (simp add: ac_simps)
  then have "tp * pp dvd ws" by (metis dvd_triv_left)
  with assms show False by simp
qed

subsection \<open>The tokenizing loop\<close>

lemma tokenize_loop_concat:
  "tokenize_loop tok ms (a, b, c) =
     (a @ concat (map (\<lambda>m. fst (tok (content m))) ms),
      b @ concat (map (segment_labels tok) ms),
      c @ concat (map (\<lambda>m. snd (tok (content m))) ms))"
  by (induction ms arbitrary: a b c) (simp_all add: Let_def segment_labels_def)

lemma segment_labels_length: "length (segment_labels tok m) = length (fst (tok (content m)))"
  by (simp add: segment_labels_def)

lemma segment_labels_pointwise:
  "list_all2 (\<lambda>l i. l = - 100 \<or> l = i) (segment_labels tok m) (fst (tok (content m)))"
  by (simp add: segment_labels_def list_all2_conv_all_nth)

lemma labels_pointwise:
  "list_all2 (\<lambda>l i. l = - 100 \<or> l = i)
     (concat (map (segment_labels tok) ms)) (concat (map (\<lambda>m. fst (tok (content m))) ms))"
  by (induction ms) (simp_all add: list_all2_appendI segment_labels_pointwise)

lemma mask_length:
  "\<forall>s. length (snd (tok s)) = length (fst (tok s)) \<Longrightarrow>
     length (concat (map (\<lambda>m. snd (tok (content m))) ms)) =
     length (concat (map (\<lambda>m. fst (tok (content m))) ms))"
  by (induction ms) simp_all

lemma example_prepared:
  "prepare_chatml_messages example_conversation (special_tokens_map example_tokenizer) ''history'' False
     = Inr [\<lparr>content = ''<s>'', require_loss = False\<rparr>,
            \<lparr>content = ''<|im_start|>user'' @ newline @ ''hi<|im_end|>'' @ newline, require_loss = False\<rparr>,
            \<lparr>content = ''<|im_start|>assistant'' @ newline, require_loss = False\<rparr>,
            \<lparr>content = ''hello<|im_end|>'', require_loss = True\<rparr>,
            \<lparr>content = newline, require_loss = False\<rparr>]"
  by (simp add: example_tokenizer_def example_conversation_def prepare_chatml_messages_def)

lemma example_prepared_bos:
  "prepare_chatml_messages example_conversation [''bos_token'' \<mapsto> ''<s>''] ''history'' False
     = Inr [\<lparr>content = ''<s>'', require_loss = False\<rparr>,
            \<lparr>content = ''<|im_start|>user'' @ newline @ ''hi<|im_end|>'' @ newline, require_loss = False\<rparr>,
            \<lparr>content = ''<|im_start|>assistant'' @ newline, require_loss = False\<rparr>,
            \<lparr>content = ''hello<|im_end|>'', require_loss = True\<rparr>,
            \<lparr>content = newline, require_loss = False\<rparr>]"
  by (simp add: example_conversation_def prepare_chatml_messages_def)

section \<open>The generation coordinator\<close>

text \<open>
  C1, as the code has it. When the underlying generation returns, \<open>generate\<close> returns
  its result, and the layers it leaves are the layers the generation left with \<open>None\<close>
  stored in every \<open>past_key_values\<close> and every \<open>hidden_states\<close> attribute that
  exists: every slot is absent or \<open>None\<close> and both gatherings give \<open>None\<close>.  When the underlying
  generation raises, \<open>generate\<close> raises the same exception and the coordinator is as the
  generation left it: nothing is cleaned.
\<close>

theorem generate_cleans_on_success:
  "(super_generate self = (Inr res, self1) \<longrightarrow>
      fst (generate super_generate self) = Inr res
      \<and> layers (snd (generate super_generate self)) =
          map (\<lambda>l. if l ''hidden_states'' = None then l else l(''hidden_states'' \<mapsto> PyNone))
            (map (\<lambda>l. if l ''past_key_values'' = None then l else l(''past_key_values'' \<mapsto> PyNone))
              (layers self1))
      \<and> list_all (slot_empty ''past_key_values'') (layers (snd (generate super_generate self)))
      \<and> list_all (slot_empty ''hidden_states'') (layers (snd (generate super_generate self)))
      \<and> get_past_key_values (layers (snd (generate super_generate self))) = None
      \<and> get_hidden_states (layers (snd (generate super_generate self))) = None)
   \<and> (super_generate self = (Inl e, self1) \<longrightarrow>
        generate super_generate self = (Inl e, self1))"
proof (intro conjI impI)
  assume a: "super_generate self = (Inr res, self1)"
  let ?ls = "layers (snd (generate super_generate self))"
  have ls: "?ls = clean_attr ''hidden_states'' (clean_attr ''past_key_values'' (layers self1))"
    using a by (simp add: generate_def Let_def clean_hidden_states_def clean_past_key_values_def)
  show "fst (generate super_generate self) = Inr res"
    using a by (simp add: generate_def Let_def)
  show "?ls = map (\<lambda>l. if l ''hidden_states'' = None then l else l(''hidden_states'' \<mapsto> PyNone))
            (map (\<lambda>l. if l ''past_key_values'' = None then l else l(''past_key_values'' \<mapsto> PyNone))
              (layers self1))"
    unfolding ls clean_attr_map ..
  show "list_all (slot_empty ''past_key_values'') ?ls"
    unfolding ls by (rule clean_attr_empty_other) (simp_all add: clean_attr_empty)
  show "list_all (slot_empty ''hidden_states'') ?ls"
    unfolding ls by (rule clean_attr_empty)
  have p: "filled_slots ''past_key_values'' ?ls = []"
    unfolding ls by (simp add: filled_slots_clean_other filled_slots_clean)
  have h: "filled_slots ''hidden_states'' ?ls = []"
    unfolding ls by (simp add: filled_slots_clean)
  show "get_past_key_values ?ls = None"
    using p by (simp add: get_past_key_values_def gather_attr_filled)
  show "get_hidden_states ?ls = None"
    using h by (simp add: get_hidden_states_def gather_attr_filled)
next
  assume "super_generate self = (Inl e, self1)"
  then show "generate super_generate self = (Inl e, self1)"
    by (simp add: generate_def)
qed

text \<open>
  The example stage: after a generation of one forward pass the two cache slots are filled;
  \<open>generate\<close> around it leaves none filled.  Around the generation that raises after
  its forward pass, \<open>generate\<close> leaves the coordinator as the forward pass left it.
\<close>

theorem generate_cleans_on_success_witness:
  "fst (generate (one_step_generation example_engine (Tensor 3 [[5, 6, 7]])) example_mixin)
     = Inr (Tensor 3 [[5, 6, 7]])
   \<and> filled_slots ''past_key_values''
        (layers (snd (forward example_engine example_mixin (Tensor 3 [[5, 6, 7]])))) = [PyObj 1, PyObj 1]
   \<and> list_all (slot_empty ''past_key_values'')
        (layers (snd (generate (one_step_generation example_engine (Tensor 3 [[5, 6, 7]])) example_mixin)))
   \<and> get_past_key_values
        (layers (snd (generate (one_step_generation example_engine (Tensor 3 [[5, 6, 7]])) example_mixin))) = None
   \<and> get_hidden_states
        (layers (snd (generate (one_step_generation example_engine (Tensor 3 [[5, 6, 7]])) example_mixin))) = None
   \<and> generate (raising_generation example_engine (Tensor 3 [[5, 6, 7]])) example_mixin
       = (Inl ValueError, snd (forward example_engine example_mixin (Tensor 3 [[5, 6, 7]])))"
proof -
  let ?ids = "Tensor 3 [[5, 6, 7]]"
  let ?s1 = "snd (forward example_engine example_mixin ?ids)"
  have ok: "one_step_generation example_engine ?ids example_mixin = (Inr ?ids, ?s1)"
    by (simp add: one_step_generation_def forward_def example_engine_def Let_def)
  have bad: "raising_generation example_engine ?ids example_mixin = (Inl ValueError, ?s1)"
    by (simp add: raising_generation_def case_prod_beta)
  have before: "filled_slots ''past_key_values'' (layers ?s1) = [PyObj 1, PyObj 1]"
    by (simp add: ex_defs)
  let ?g = "generate (one_step_generation example_engine ?ids) example_mixin"
  have "fst ?g = Inr ?ids
      \<and> list_all (slot_empty ''past_key_values'') (layers (snd ?g))
      \<and> get_past_key_values (layers (snd ?g)) = None
      \<and> get_hidden_states (layers (snd ?g)) = None"
    using generate_cleans_on_success [of "one_step_generation example_engine ?ids" example_mixin ?ids ?s1] ok
    by blast
  moreover have "generate (raising_generation example_engine ?ids) example_mixin = (Inl ValueError, ?s1)"
    using generate_cleans_on_success [of "raising_generation example_engine ?ids" example_mixin _ ?s1 ValueError] bad
    by blast
  ultimately show ?thesis
    using before by simp
qed

text \<open>
  C1 as stated fails on the error path: the generation that raises after one forward pass
  leaves both cache slots of the example stage filled when \<open>generate\<close> has ended.
\<close>

theorem generate_leaks_on_error:
  "fst (generate (raising_generation example_engine (Tensor 3 [[5, 6, 7]])) example_mixin) = Inl ValueError
   \<and> filled_slots ''past_key_values''
        (layers (snd (generate (raising_generation example_engine (Tensor 3 [[5, 6, 7]])) example_mixin)))
       = [PyObj 1, PyObj 1]
   \<and> get_past_key_values
        (layers (snd (generate (raising_generation example_engine (Tensor 3 [[5, 6, 7]])) example_mixin)))
       = Some [PyObj 1, PyObj 1]
   \<and> \<not> list_all (slot_empty ''past_key_values'')
        (layers (snd (generate (raising_generation example_engine (Tensor 3 [[5, 6, 7]])) example_mixin)))"
  by (simp add: generate_def raising_generation_def slot_empty_def ex_defs)

text \<open>
  C2. A call of \<open>forward\<close> makes exactly one more \<open>eval_batch\<close> call on the
  engine, the last of its calls, and both components of its batch are the same tensor: the
  last column of \<open>input_ids\<close> when the coordinator is in \<open>CachePopulated\<close>, the
  whole of \<open>input_ids\<close> in \<open>NoCache\<close>.  Before it stand the reset calls, when the
  stored shape differs, and nothing else.  A forward pass that returns a cache leaves the
  coordinator in \<open>CachePopulated\<close>, so the next call evaluates the last column only; for
  an input with at least one column that batch has one column.
\<close>

theorem forward_incremental:
  "engine_calls (snd (forward ev self ids)) =
     engine_calls self @
       (case communicate_buffer_shape self of
          None \<Rightarrow> []
        | Some s \<Rightarrow>
            if s \<noteq> shape_of (case cache_state_of self of CachePopulated \<Rightarrow> last_column ids | NoCache \<Rightarrow> ids)
            then [ResetActivationShape, SetTotalLossNone] else []) @
       [EvalBatch (case cache_state_of self of CachePopulated \<Rightarrow> last_column ids | NoCache \<Rightarrow> ids)
                  (case cache_state_of self of CachePopulated \<Rightarrow> last_column ids | NoCache \<Rightarrow> ids)]
   \<and> evaluated (engine_calls (snd (forward ev self ids))) =
       evaluated (engine_calls self) @
         [(case cache_state_of self of CachePopulated \<Rightarrow> last_column ids | NoCache \<Rightarrow> ids,
           case cache_state_of self of CachePopulated \<Rightarrow> last_column ids | NoCache \<Rightarrow> ids)]
   \<and> forwarded (engine_calls (snd (forward ev self ids))) =
       forwarded (engine_calls self) @
         [case cache_state_of self of CachePopulated \<Rightarrow> last_column ids | NoCache \<Rightarrow> ids]
   \<and> (\<forall>out ids'. fst (forward ev self ids) = Inr out \<and> past_key_values out \<noteq> None \<longrightarrow>
         cache_state_of (snd (forward ev self ids)) = CachePopulated
         \<and> last (engine_calls (snd (forward ev (snd (forward ev self ids)) ids')))
             = EvalBatch (last_column ids') (last_column ids')
         \<and> last (forwarded (engine_calls (snd (forward ev (snd (forward ev self ids)) ids'))))
             = last_column ids')
   \<and> (0 < n_cols ids \<longrightarrow> shape_of (last_column ids) = (length (t_rows ids), 1))"
proof (intro conjI allI impI)
  let ?x = "case cache_state_of self of CachePopulated \<Rightarrow> last_column ids | NoCache \<Rightarrow> ids"
  have x: "forward_input self ids = ?x"
    by (simp add: forward_input_def cache_state_of_def)
  show "engine_calls (snd (forward ev self ids)) =
     engine_calls self @
       (case communicate_buffer_shape self of
          None \<Rightarrow> []
        | Some s \<Rightarrow> if s \<noteq> shape_of ?x then [ResetActivationShape, SetTotalLossNone] else []) @
       [EvalBatch ?x ?x]"
    unfolding forward_calls sync_calls x by simp
  show "evaluated (engine_calls (snd (forward ev self ids))) = evaluated (engine_calls self) @ [(?x, ?x)]"
    unfolding forward_calls x by (simp add: evaluated_append sync_evaluated)
  show "forwarded (engine_calls (snd (forward ev self ids))) = forwarded (engine_calls self) @ [?x]"
    unfolding forward_calls x by (simp add: forwarded_append sync_forwarded)
next
  fix out ids'
  assume a: "fst (forward ev self ids) = Inr out \<and> past_key_values out \<noteq> None"
  then show c: "cache_state_of (snd (forward ev self ids)) = CachePopulated"
    using forward_output [of ev self ids out] by (simp add: cache_state_of_def)
  then have i: "forward_input (snd (forward ev self ids)) ids' = last_column ids'"
    by (simp add: forward_input_def cache_state_of_def split: if_splits)
  show "last (engine_calls (snd (forward ev (snd (forward ev self ids)) ids')))
             = EvalBatch (last_column ids') (last_column ids')"
    unfolding forward_calls i by simp
  show "last (forwarded (engine_calls (snd (forward ev (snd (forward ev self ids)) ids'))))
             = last_column ids'"
    unfolding forward_calls i by (simp add: forwarded_append)
next
  assume "0 < n_cols ids"
  then show "shape_of (last_column ids) = (length (t_rows ids), 1)"
    by (cases ids) simp
qed

text \<open>
  The example stage: the first call evaluates the three columns, the cache is populated by
  it, and the second call, given four columns, evaluates the one token \<open>8\<close> in both
  components of the batch.
\<close>

theorem forward_incremental_witness:
  "engine_calls (snd (forward example_engine example_mixin (Tensor 3 [[5, 6, 7]])))
     = [EvalBatch (Tensor 3 [[5, 6, 7]]) (Tensor 3 [[5, 6, 7]])]
   \<and> cache_state_of example_mixin = NoCache
   \<and> cache_state_of (snd (forward example_engine example_mixin (Tensor 3 [[5, 6, 7]]))) = CachePopulated
   \<and> last (engine_calls (snd (forward example_engine
        (snd (forward example_engine example_mixin (Tensor 3 [[5, 6, 7]]))) (Tensor 4 [[5, 6, 7, 8]]))))
       = EvalBatch (Tensor 1 [[8]]) (Tensor 1 [[8]])
   \<and> shape_of (last_column (Tensor 4 [[5, 6, 7, 8]])) = (1, 1)"
proof -
  let ?ids = "Tensor 3 [[5, 6, 7]]"
  let ?ids' = "Tensor 4 [[5, 6, 7, 8]]"
  let ?out = "\<lparr>logits = 0::int, past_key_values = Some [PyObj (1::nat), PyObj 1], hidden_states = None\<rparr>"
  have out: "fst (forward example_engine example_mixin ?ids) = Inr ?out \<and> past_key_values ?out \<noteq> None"
    by (simp add: ex_defs)
  have nc: "cache_state_of example_mixin = NoCache"
    by (simp add: ex_defs)
  have e: "engine_calls example_mixin = []" "communicate_buffer_shape example_mixin = None"
    by (simp_all add: example_mixin_def)
  have lc: "last_column ?ids' = Tensor 1 [[8]]"
    by simp
  note t = forward_incremental [of example_engine example_mixin ?ids]
  note t1 = t [THEN conjunct1]
    and t4 = t [THEN conjunct2, THEN conjunct2, THEN conjunct2, THEN conjunct1, rule_format, OF out]
  have 1: "engine_calls (snd (forward example_engine example_mixin ?ids)) = [EvalBatch ?ids ?ids]"
    using t1 by (simp add: nc e)
  have 2: "cache_state_of (snd (forward example_engine example_mixin ?ids)) = CachePopulated"
    using t4 by (rule conjunct1)
  have 3: "last (engine_calls (snd (forward example_engine
        (snd (forward example_engine example_mixin ?ids)) ?ids'))) = EvalBatch (Tensor 1 [[8]]) (Tensor 1 [[8]])"
    using t4 [THEN conjunct2, THEN conjunct1, of ?ids'] by (simp only: lc)
  show ?thesis
    using 1 2 3 nc by simp
qed

text \<open>
  C4. Gathering \<open>past_key_values\<close>, and likewise \<open>hidden_states\<close>, collects the
  non-empty slots of the layers in layer order, and returns that list exactly when it has
  at least two entries; with fewer than two it returns \<open>None\<close>, never a list of one.
\<close>

theorem gather_two_or_none:
  "get_past_key_values ls =
     (if 2 \<le> length (filled_slots ''past_key_values'' ls)
      then Some (filled_slots ''past_key_values'' ls) else None)
   \<and> get_hidden_states ls =
     (if 2 \<le> length (filled_slots ''hidden_states'' ls)
      then Some (filled_slots ''hidden_states'' ls) else None)"
proof -
  have "gather_attr a ls = (if 2 \<le> length (filled_slots a ls) then Some (filled_slots a ls) else None)"
    for a
    using gather_loop_filled [of a ls "[]"] by (auto simp: gather_attr_def Let_def)
  then show ?thesis
    by (simp add: get_past_key_values_def get_hidden_states_def)
qed

text \<open>
  C5. A call of \<open>forward\<close> resets the activation shape once when a shape is stored and
  differs from the shape of the batch it forwards, and not otherwise; after the call the
  stored shape is that of the batch.  Over a run of calls the number of resets is the number
  of forwarded batches whose shape differs from the one stored before them.  Two calls from
  a coordinator with no stored shape, the batches differing in shape: the first call makes
  no reset, the second makes one.
\<close>

theorem reset_on_shape_change:
  "resets (engine_calls (snd (forward ev self ids))) =
     resets (engine_calls self) +
       (case communicate_buffer_shape self of None \<Rightarrow> 0
        | Some s \<Rightarrow> if s \<noteq> shape_of (forward_input self ids) then 1 else 0)
   \<and> communicate_buffer_shape (snd (forward ev self ids)) = Some (shape_of (forward_input self ids))
   \<and> resets (engine_calls (forward_all ev self xs)) =
       resets (engine_calls self) +
         shape_changes (communicate_buffer_shape self)
           (map shape_of (new_batches self (forward_all ev self xs)))
   \<and> (communicate_buffer_shape self = None
        \<and> shape_of (forward_input self ids) \<noteq> shape_of (forward_input (snd (forward ev self ids)) ids')
      \<longrightarrow> resets (engine_calls (snd (forward ev self ids))) = resets (engine_calls self)
        \<and> resets (engine_calls (snd (forward ev (snd (forward ev self ids)) ids'))) =
            Suc (resets (engine_calls self)))"
proof -
  have one: "resets (engine_calls (snd (forward ev s i))) =
     resets (engine_calls s) +
       (case communicate_buffer_shape s of None \<Rightarrow> 0
        | Some t \<Rightarrow> if t \<noteq> shape_of (forward_input s i) then 1 else 0)" for s :: "'a mixin" and i
    by (simp add: forward_calls resets_append sync_resets)
  show ?thesis
    using one [of self ids] one [of "snd (forward ev self ids)" ids']
      forward_shape [of ev self ids] forward_all_resets [of ev self xs]
    by simp
qed

text \<open>
  The example stage: three columns, then the last column twice.  The first call resets
  nothing, the second resets once, and the third adds none.
\<close>

theorem reset_on_shape_change_witness:
  "resets (engine_calls (snd (forward example_engine example_mixin (Tensor 3 [[5, 6, 7]])))) = 0
   \<and> resets (engine_calls (snd (forward example_engine
        (snd (forward example_engine example_mixin (Tensor 3 [[5, 6, 7]]))) (Tensor 4 [[5, 6, 7, 8]])))) = 1
   \<and> resets (engine_calls (forward_all example_engine example_mixin
        [Tensor 3 [[5, 6, 7]], Tensor 4 [[5, 6, 7, 8]], Tensor 5 [[5, 6, 7, 8, 9]]])) = 1"
proof -
  let ?ids = "Tensor 3 [[5, 6, 7]]"
  let ?ids' = "Tensor 4 [[5, 6, 7, 8]]"
  let ?s1 = "snd (forward example_engine example_mixin ?ids)"
  have c: "communicate_buffer_shape example_mixin = None" "resets (engine_calls example_mixin) = 0"
    by (simp_all add: example_mixin_def)
  have d: "shape_of (forward_input example_mixin ?ids) \<noteq> shape_of (forward_input ?s1 ?ids')"
    by (simp add: ex_defs)
  have n: "map shape_of (new_batches example_mixin (forward_all example_engine example_mixin
        [?ids, ?ids', Tensor 5 [[5, 6, 7, 8, 9]]])) = [(1, 3), (1, 1), (1, 1)]"
    by (simp add: new_batches_def ex_defs)
  show ?thesis
    using reset_on_shape_change [of example_engine example_mixin ?ids
        "[?ids, ?ids', Tensor 5 [[5, 6, 7, 8, 9]]]" ?ids'] c d n
    by simp
qed

text \<open>
  C6, as the code has it. The entries of the list go, in order, to the layers that have the
  attribute \<open>past_key_values\<close>, in layer order; no other attribute of a layer changes
  and no layer gains or loses the attribute.  A list shorter than the number of those
  layers raises \<open>StopIteration\<close>, the entries it has being assigned before.  A list at
  least as long raises nothing: the layers take its first entries and the rest is ignored.
\<close>

theorem set_cache_in_order:
  "attr_values ''past_key_values'' (snd (set_past_key_values kvs ls)) =
       take (length (attr_values ''past_key_values'' ls)) kvs
         @ drop (length kvs) (attr_values ''past_key_values'' ls)
   \<and> list_all2 (same_but ''past_key_values'') ls (snd (set_past_key_values kvs ls))
   \<and> (length kvs < length (attr_values ''past_key_values'' ls) \<longrightarrow>
        fst (set_past_key_values kvs ls) = Inl StopIteration)
   \<and> (length (attr_values ''past_key_values'' ls) \<le> length kvs \<longrightarrow>
        fst (set_past_key_values kvs ls) = Inr ()
        \<and> attr_values ''past_key_values'' (snd (set_past_key_values kvs ls)) =
            take (length (attr_values ''past_key_values'' ls)) kvs)"
  by (simp add: set_past_key_values_def set_attr_fst set_attr_values set_attr_frame)

text \<open>
  The example stage has two layers with the attribute: a list of one entry raises after
  the first layer took it, a list of two is assigned whole.
\<close>

theorem set_cache_in_order_witness:
  "fst (set_past_key_values [PyObj 1] example_layers) = Inl StopIteration
   \<and> attr_values ''past_key_values'' (snd (set_past_key_values [PyObj 1] example_layers))
       = [PyObj 1, PyNone]
   \<and> fst (set_past_key_values [PyObj 1, PyObj 2] example_layers) = Inr ()
   \<and> attr_values ''past_key_values'' (snd (set_past_key_values [PyObj 1, PyObj 2] example_layers))
       = [PyObj 1, PyObj 2]"
proof -
  have n: "attr_values ''past_key_values'' example_layers = [PyNone, PyNone]"
    by (simp add: attr_values_def example_layers_def List.map_filter_simps)
  show ?thesis
    using set_cache_in_order [of "[PyObj 1]" example_layers]
      set_cache_in_order [of "[PyObj 1, PyObj 2]" example_layers] n
    by simp
qed

text \<open>
  C6 as stated fails for a list that is too long: three entries for the two layers of the
  example stage are accepted without an error.
\<close>

theorem set_cache_accepts_longer_list:
  "length [PyObj 1, PyObj 2, PyObj 3 :: nat pyval] \<noteq> length (attr_values ''past_key_values'' example_layers)
   \<and> fst (set_past_key_values [PyObj 1, PyObj 2, PyObj 3] example_layers) = Inr ()
   \<and> attr_values ''past_key_values'' (snd (set_past_key_values [PyObj 1, PyObj 2, PyObj 3] example_layers))
       = [PyObj 1, PyObj 2]"
  by (simp add: set_past_key_values_def attr_values_def example_layers_def List.map_filter_simps)

section \<open>The mesh\<close>

text \<open>
  C3. For positive \<open>pp\<close>, \<open>tp\<close> and world size \<open>ws\<close>, with \<open>pp * tp\<close>
  dividing \<open>ws\<close>, and any requested \<open>dp\<close>: resolving the mesh raises nothing and
  gives a data-parallel size \<open>dp'\<close> with \<open>pp * dp' * tp = ws\<close>.  When the requested
  product differs from \<open>ws\<close>, \<open>dp'\<close> is \<open>ws div (pp * tp)\<close> and warnings are
  logged; when it agrees, \<open>dp\<close> is kept and nothing is logged.
\<close>

theorem mesh_resolution:
  assumes "0 < pp" "0 < tp" "0 < ws" "pp * tp dvd ws"
  shows "\<exists>dp' w. resolve_dims ws (pp, dp, tp) = (Inr (pp, dp', tp), w)
           \<and> pp * dp' * tp = ws
           \<and> (ws \<noteq> pp * dp * tp \<longrightarrow> dp' = ws div (pp * tp) \<and> w \<noteq> [])
           \<and> (ws = pp * dp * tp \<longrightarrow> dp' = dp \<and> w = [])"
proof (cases "ws = pp * dp * tp")
  case True
  then show ?thesis by (simp add: resolve_dims_def)
next
  case False
  have nz: "tp * pp \<noteq> 0" using assms by simp
  have "tp * pp dvd ws" using assms(4) by (simp add: mult.commute)
  then have "pp * (ws div (tp * pp)) * tp = ws" by (rule dvd_recompute)
  then show ?thesis using False nz
    by (simp add: resolve_dims_def Let_def mult.commute)
qed

text \<open>
  The spec's example: \<open>pp = 3\<close>, \<open>tp = 2\<close>, twelve processes and an assumed
  \<open>dp = 1\<close> give \<open>dp = 2\<close> and the two warnings.
\<close>

theorem mesh_resolution_witness:
  "resolve_dims 12 (3, 1, 2) =
     (Inr (3, 2, 2),
      [''The world size is not equal to the product of the parallel sizes set.12 != 3 * 1 * 2.'',
       ''Set dp_size to {dp_size}.''])
   \<and> (3::int) * 2 * 2 = 12"
proof -
  have h: "(0::int) < 3" "(0::int) < 2" "(0::int) < 12" "(3::int) * 2 dvd 12"
    by simp_all
  have e: "resolve_dims 12 (3, 1, 2) =
     (Inr (3, 2, 2),
      [''The world size is not equal to the product of the parallel sizes set.12 != 3 * 1 * 2.'',
       ''Set dp_size to {dp_size}.''])"
    by (simp add: resolve_dims_def str_int_def str_nat.simps digit_char_def)
  from mesh_resolution [OF h, of 1] e show ?thesis
    by simp
qed

text \<open>
  C7. When the requested product differs from the world size and the recomputed mesh is
  invalid, a dimension not positive or the world size not a multiple of \<open>pp * tp\<close>,
  construction ends in an exception and the environment is as before: the assertion of
  the grid fails, or the recomputation itself divides by zero.
\<close>

theorem invalid_mesh_is_fatal:
  assumes "ws \<noteq> pp * dp * tp"
    and "pp \<le> 0 \<or> tp \<le> 0 \<or> ws div (tp * pp) \<le> 0 \<or> \<not> pp * tp dvd ws"
  shows "\<exists>e w. PipelineModel_init ds env (Some (pp, dp, tp)) ws = (Inl e, env, w)
           \<and> (e = AssertionError \<or> e = ZeroDivisionError)"
proof (cases "tp * pp = 0")
  case True
  then show ?thesis using assms(1)
    by (simp add: PipelineModel_init_def resolve_dims_def Let_def)
next
  case False
  have "\<not> is_grid_valid (pp, ws div (tp * pp), tp) ws"
  proof (cases "pp * tp dvd ws")
    case True
    with assms(2) show ?thesis by (auto simp: is_grid_valid_def)
  next
    case False
    then have "\<not> tp * pp dvd ws" by (simp add: mult.commute)
    then have "pp * (ws div (tp * pp)) * tp \<noteq> ws" by (rule not_dvd_recompute)
    then show ?thesis by (simp add: is_grid_valid_def)
  qed
  then show ?thesis using assms(1) False
    by (simp add: PipelineModel_init_def resolve_dims_def Let_def MultiParallelGrid_init_def)
qed

text \<open>
  Four processes for \<open>pp = 2\<close>, \<open>tp = 4\<close> (the recomputed size is zero); ten
  processes for \<open>pp = 2\<close>, \<open>tp = 3\<close> (no multiple); and \<open>pp = 0\<close>.
\<close>

theorem invalid_mesh_is_fatal_witness:
  "fst (PipelineModel_init (\<lambda>t. Inr \<lparr>ds_stage_id = 0, ds_data_parallel_id = 0, ds_parts = [0, 4]\<rparr>)
          Map.empty (Some (2, 1, 4)) 4) = Inl AssertionError
   \<and> fst (PipelineModel_init (\<lambda>t. Inr \<lparr>ds_stage_id = 0, ds_data_parallel_id = 0, ds_parts = [0, 4]\<rparr>)
          Map.empty (Some (2, 1, 3)) 10) = Inl AssertionError
   \<and> fst (PipelineModel_init (\<lambda>t. Inr \<lparr>ds_stage_id = 0, ds_data_parallel_id = 0, ds_parts = [0, 4]\<rparr>)
          Map.empty (Some (0, 1, 3)) 10) = Inl ZeroDivisionError"
proof -
  let ?ds = "\<lambda>t::dims. (Inr \<lparr>ds_stage_id = 0, ds_data_parallel_id = 0, ds_parts = [0, 4]\<rparr> :: error + deepspeed_view)"
  have a: "(4::int) \<noteq> 2 * 1 * 4" "(2::int) \<le> 0 \<or> (4::int) \<le> 0 \<or> (4::int) div (4 * 2) \<le> 0 \<or> \<not> (2::int) * 4 dvd 4"
    by simp_all
  have b: "(10::int) \<noteq> 2 * 1 * 3" "(2::int) \<le> 0 \<or> (3::int) \<le> 0 \<or> (10::int) div (3 * 2) \<le> 0 \<or> \<not> (2::int) * 3 dvd 10"
    by simp_all
  have c: "(10::int) \<noteq> 0 * 1 * 3" "(0::int) \<le> 0 \<or> (3::int) \<le> 0 \<or> (10::int) div (3 * 0) \<le> 0 \<or> \<not> (0::int) * 3 dvd 10"
    by simp_all
  have a': "fst (PipelineModel_init ?ds Map.empty (Some (2, 1, 4)) 4) \<noteq> Inl ZeroDivisionError"
    by (simp add: PipelineModel_init_def resolve_dims_def Let_def MultiParallelGrid_init_def is_grid_valid_def)
  have b': "fst (PipelineModel_init ?ds Map.empty (Some (2, 1, 3)) 10) \<noteq> Inl ZeroDivisionError"
    by (simp add: PipelineModel_init_def resolve_dims_def Let_def MultiParallelGrid_init_def is_grid_valid_def)
  have c': "fst (PipelineModel_init ?ds Map.empty (Some (0, 1, 3)) 10) \<noteq> Inl AssertionError"
    by (simp add: PipelineModel_init_def resolve_dims_def Let_def MultiParallelGrid_init_def is_grid_valid_def)
  from invalid_mesh_is_fatal [OF a, of ?ds Map.empty] invalid_mesh_is_fatal [OF b, of ?ds Map.empty]
    invalid_mesh_is_fatal [OF c, of ?ds Map.empty] a' b' c'
  show ?thesis by fastforce
qed

text \<open>
  C8 at twelve processes for \<open>pp = 2\<close>, \<open>dp = 1\<close>, \<open>tp = 1\<close>: the size is
  recomputed to six, and the second warning is the literal text with the placeholder; the
  digit six stands in neither warning.
\<close>

theorem warning_lacks_corrected_value:
  "resolve_dims 12 (2, 1, 1) =
     (Inr (2, 6, 1),
      [''The world size is not equal to the product of the parallel sizes set.12 != 2 * 1 * 1.'',
       ''Set dp_size to {dp_size}.''])
   \<and> str_int 6 = ''6''
   \<and> CHR ''6'' \<notin> set (concat (snd (resolve_dims 12 (2, 1, 1))))"
  by (simp add: resolve_dims_def str_int_def str_nat.simps digit_char_def)

text \<open>
  C9. When construction completes, the environment holds \<open>json.dumps\<close> of the
  partition bounds under \<open>COLLIE_PP_PARTS\<close>, the stage index under
  \<open>COLLIE_PP_RANK\<close> and the data-parallel index under \<open>COLLIE_DP_RANK\<close>, as the
  model carries them; every other variable is as before.
\<close>

theorem published_state:
  assumes "PipelineModel_init ds env topology ws = (Inr m, env', w)"
  shows "env' ''COLLIE_PP_PARTS'' = Some (json_dumps (parts m))
       \<and> env' ''COLLIE_PP_RANK'' = Some (str_int (stage_id m))
       \<and> env' ''COLLIE_DP_RANK'' = Some (str_int (data_parallel_id m))
       \<and> (\<forall>k. k \<notin> {''COLLIE_PP_PARTS'', ''COLLIE_PP_RANK'', ''COLLIE_DP_RANK''} \<longrightarrow> env' k = env k)
       \<and> (\<exists>v. ds (topo m) = Inr v \<and> parts m = ds_parts v \<and> stage_id m = ds_stage_id v
              \<and> data_parallel_id m = ds_data_parallel_id v)"
  using assms
  by (auto simp: PipelineModel_init_def split: option.splits prod.splits sum.splits)

text \<open>
  Four processes for \<open>pp = 2\<close>, \<open>tp = 1\<close> on the stage \<open>1\<close> of the replica
  \<open>0\<close>, the bounds being \<open>[0, 5, 10]\<close>.
\<close>

theorem published_state_witness:
  "fst (snd (PipelineModel_init (\<lambda>t. Inr \<lparr>ds_stage_id = 1, ds_data_parallel_id = 0, ds_parts = [0, 5, 10]\<rparr>)
        [''WORLD_SIZE'' \<mapsto> ''4''] (Some (2, 1, 1)) 4)) ''COLLIE_PP_PARTS'' = Some ''[0, 5, 10]''
   \<and> fst (snd (PipelineModel_init (\<lambda>t. Inr \<lparr>ds_stage_id = 1, ds_data_parallel_id = 0, ds_parts = [0, 5, 10]\<rparr>)
        [''WORLD_SIZE'' \<mapsto> ''4''] (Some (2, 1, 1)) 4)) ''COLLIE_PP_RANK'' = Some ''1''
   \<and> fst (snd (PipelineModel_init (\<lambda>t. Inr \<lparr>ds_stage_id = 1, ds_data_parallel_id = 0, ds_parts = [0, 5, 10]\<rparr>)
        [''WORLD_SIZE'' \<mapsto> ''4''] (Some (2, 1, 1)) 4)) ''COLLIE_DP_RANK'' = Some ''0''
   \<and> fst (snd (PipelineModel_init (\<lambda>t. Inr \<lparr>ds_stage_id = 1, ds_data_parallel_id = 0, ds_parts = [0, 5, 10]\<rparr>)
        [''WORLD_SIZE'' \<mapsto> ''4''] (Some (2, 1, 1)) 4)) ''WORLD_SIZE'' = Some ''4''"
proof -
  let ?ds = "\<lambda>t::dims. (Inr \<lparr>ds_stage_id = 1, ds_data_parallel_id = 0, ds_parts = [0, 5, 10]\<rparr> :: error + deepspeed_view)"
  let ?P = "PipelineModel_init ?ds [''WORLD_SIZE'' \<mapsto> ''4''] (Some (2, 1, 1)) 4"
  obtain r env' w where p: "?P = (r, env', w)"
    by (cases ?P)
  have "\<exists>m. fst ?P = Inr m"
    by (simp add: PipelineModel_init_def resolve_dims_def Let_def MultiParallelGrid_init_def
        is_grid_valid_def)
  then obtain m where "r = Inr m" using p by auto
  with p have e: "?P = (Inr m, env', w)" by simp
  note t = published_state [OF e]
  note t1 = t [THEN conjunct1]
    and t2 = t [THEN conjunct2, THEN conjunct1]
    and t3 = t [THEN conjunct2, THEN conjunct2, THEN conjunct1]
    and t4 = t [THEN conjunct2, THEN conjunct2, THEN conjunct2, THEN conjunct1, rule_format]
    and t5 = t [THEN conjunct2, THEN conjunct2, THEN conjunct2, THEN conjunct2]
  from t5 obtain v where v: "?ds (topo m) = Inr v" "parts m = ds_parts v" "stage_id m = ds_stage_id v"
      "data_parallel_id m = ds_data_parallel_id v"
    by (elim exE conjE)
  from v(1) have v': "v = \<lparr>ds_stage_id = 1, ds_data_parallel_id = 0, ds_parts = [0, 5, 10]\<rparr>"
    by simp
  have m: "parts m = [0, 5, 10]" "stage_id m = 1" "data_parallel_id m = 0"
    using v(2-4) by (simp_all add: v')
  have s: "json_dumps [0, 5, 10] = ''[0, 5, 10]''" "str_int 1 = ''1''" "str_int 0 = ''0''"
    by (simp_all add: json_dumps_def str_int_def str_nat.simps digit_char_def)
  have k: "''WORLD_SIZE'' \<notin> {''COLLIE_PP_PARTS'', ''COLLIE_PP_RANK'', ''COLLIE_DP_RANK''}"
    by simp
  have w4: "env' ''WORLD_SIZE'' = Some ''4''"
    using t4 [OF k] by simp
  have f: "fst (snd ?P) = env'"
    by (simp add: e)
  show ?thesis
    unfolding f by (simp add: t1 t2 t3 w4 m s)
qed

section \<open>Tokenized conversations\<close>

text \<open>
  C10, as the code has it. When \<open>tokenize_conversation\<close> returns, \<open>labels\<close> is as
  long as \<open>input_ids\<close> and each label is \<open>-100\<close> or the token id at its place; the
  three lists are the concatenations, over the prepared messages of the template, of the
  token ids, of the labels of the segment (the ids when the segment requires loss,
  \<open>-100\<close> for each id otherwise) and of the masks.  The mask is whatever the tokenizer
  gives: \<open>attention_mask\<close> is as long as \<open>input_ids\<close> when the tokenizer's mask
  is as long as its ids on every string.
\<close>

theorem tokenize_aligned:
  assumes "tokenize_conversation conv tok text_field fn agp = Inr (input_ids, labels, attention_mask)"
  shows "length labels = length input_ids
       \<and> (\<forall>i<length input_ids. labels ! i = - 100 \<or> labels ! i = input_ids ! i)
       \<and> ((\<forall>s. length (snd (encode tok s)) = length (fst (encode tok s)))
            \<longrightarrow> length attention_mask = length input_ids)
       \<and> (\<exists>f pm. select_template tok fn = Inr f
             \<and> f conv (special_tokens_map tok) text_field agp = Inr pm
             \<and> input_ids = concat (map (\<lambda>m. fst (encode tok (content m))) pm)
             \<and> labels = concat (map (segment_labels (encode tok)) pm)
             \<and> attention_mask = concat (map (\<lambda>m. snd (encode tok (content m))) pm))"
proof -
  from assms obtain f where s: "select_template tok fn = Inr f"
    by (cases "select_template tok fn") (simp_all add: tokenize_conversation_def)
  from assms s obtain pm where f: "f conv (special_tokens_map tok) text_field agp = Inr pm"
    by (cases "f conv (special_tokens_map tok) text_field agp") (simp_all add: tokenize_conversation_def)
  from assms s f
  have r: "tokenize_loop (encode tok) pm ([], [], []) = (input_ids, labels, attention_mask)"
    by (simp add: tokenize_conversation_def)
  from r have i: "input_ids = concat (map (\<lambda>m. fst (encode tok (content m))) pm)"
    and l: "labels = concat (map (segment_labels (encode tok)) pm)"
    and a: "attention_mask = concat (map (\<lambda>m. snd (encode tok (content m))) pm)"
    by (simp_all add: tokenize_loop_concat)
  have p: "list_all2 (\<lambda>l i. l = - 100 \<or> l = i) labels input_ids"
    unfolding i l by (rule labels_pointwise)
  have 1: "length labels = length input_ids"
    using p by (rule list_all2_lengthD)
  have 2: "\<forall>i<length input_ids. labels ! i = - 100 \<or> labels ! i = input_ids ! i"
    using p by (simp add: list_all2_conv_all_nth)
  have 3: "(\<forall>s. length (snd (encode tok s)) = length (fst (encode tok s)))
            \<longrightarrow> length attention_mask = length input_ids"
    unfolding i a by (auto intro: mask_length)
  have 4: "\<exists>f pm. select_template tok fn = Inr f
             \<and> f conv (special_tokens_map tok) text_field agp = Inr pm
             \<and> input_ids = concat (map (\<lambda>m. fst (encode tok (content m))) pm)
             \<and> labels = concat (map (segment_labels (encode tok)) pm)
             \<and> attention_mask = concat (map (\<lambda>m. snd (encode tok (content m))) pm)"
    using s f i l a by (intro exI [of _ f] exI [of _ pm] conjI)
  show ?thesis
    using 1 2 3 4 by (intro conjI)
qed

text \<open>
  A user turn and an assistant turn under the ChatML template, with a tokenizer that gives
  one token per segment, its length: only the assistant's answer keeps its id as label.
\<close>

theorem tokenize_aligned_witness:
  "tokenize_conversation example_conversation example_tokenizer ''history'' None False =
     Inr ([3, 30, 22, 15, 1], [- 100, - 100, - 100, 15, - 100], [1, 1, 1, 1, 1])
   \<and> length [- 100, - 100, - 100, 15, - 100 :: int] = length [3, 30, 22, 15, 1 :: int]
   \<and> length [1, 1, 1, 1, 1 :: int] = length [3, 30, 22, 15, 1 :: int]
   \<and> [- 100, - 100, - 100, 15, - 100 :: int] ! 3 = [3, 30, 22, 15, 1 :: int] ! 3
   \<and> [- 100, - 100, - 100, 15, - 100 :: int] ! 0 = - 100"
proof -
  have e: "tokenize_conversation example_conversation example_tokenizer ''history'' None False =
     Inr ([3, 30, 22, 15, 1], [- 100, - 100, - 100, 15, - 100], [1, 1, 1, 1, 1])"
    by (simp add: tokenize_conversation_def select_template_def
        TOKENIZER_PREPARE_TEMPLATE_FN_MAPPING_def example_prepared)
      (simp add: example_tokenizer_def newline_def)
  have c: "\<forall>s. length (snd (encode example_tokenizer s)) = length (fst (encode example_tokenizer s))"
    by (simp add: example_tokenizer_def)
  note t = tokenize_aligned [OF e]
  from t have 1: "length [- 100, - 100, - 100, 15, - 100 :: int] = length [3, 30, 22, 15, 1 :: int]"
    by (rule conjunct1)
  from t c have 2: "length [1, 1, 1, 1, 1 :: int] = length [3, 30, 22, 15, 1 :: int]"
    by (elim conjE impE)
  show ?thesis
    using e 1 2 by simp
qed

text \<open>
  C10 as stated fails for a tokenizer whose mask is shorter than its ids: the same
  conversation is tokenized without an error into ten ids, ten labels and five mask entries.
\<close>

theorem tokenize_mask_shorter:
  "tokenize_conversation example_conversation short_mask_tokenizer ''history'' None False =
     Inr ([3, 0, 30, 0, 22, 0, 15, 0, 1, 0],
          [- 100, - 100, - 100, - 100, - 100, - 100, 15, 0, - 100, - 100],
          [1, 1, 1, 1, 1])
   \<and> length [1, 1, 1, 1, 1 :: int] \<noteq> length [3, 0, 30, 0, 22, 0, 15, 0, 1, 0 :: int]"
proof -
  have s: "special_tokens_map short_mask_tokenizer = [''bos_token'' \<mapsto> ''<s>'']"
    "type_name short_mask_tokenizer = ''Qwen2Tokenizer''"
    "encode short_mask_tokenizer = (\<lambda>s. ([int (length s), 0], [1]))"
    by (simp_all add: short_mask_tokenizer_def)
  show ?thesis
    by (simp add: tokenize_conversation_def select_template_def
        TOKENIZER_PREPARE_TEMPLATE_FN_MAPPING_def s example_prepared_bos)
      (simp add: newline_def)
qed

end
